theory Spec2Isabelle
  imports Complex_Main "HOL-Library.Word"
begin

unbundle bit_operations_syntax

section \<open>Library functions used by \<^verbatim>\<open>blockchain.py\<close>\<close>

subsection \<open>\<^verbatim>\<open>hashlib.sha256(...).hexdigest()\<close>\<close>

text \<open>
  The digest is the SHA-256 of FIPS 180-4 on byte strings: 32-bit words with wrapping
  addition, big-endian packing, one 512-bit block at a time. A Python \<^verbatim>\<open>bytes\<close>
  value is a \<^typ>\<open>string\<close> here (a list of 8-bit characters).
\<close>

type_synonym w32 = "32 word"

definition rotr :: "nat \<Rightarrow> w32 \<Rightarrow> w32" where
  "rotr n x = (drop_bit n x) OR (push_bit (32 - n) x)"

definition Ch :: "w32 \<Rightarrow> w32 \<Rightarrow> w32 \<Rightarrow> w32" where
  "Ch x y z = (x AND y) XOR (NOT x AND z)"

definition Maj :: "w32 \<Rightarrow> w32 \<Rightarrow> w32 \<Rightarrow> w32" where
  "Maj x y z = (x AND y) XOR (x AND z) XOR (y AND z)"

definition bsig0 :: "w32 \<Rightarrow> w32" where
  "bsig0 x = rotr 2 x XOR rotr 13 x XOR rotr 22 x"

definition bsig1 :: "w32 \<Rightarrow> w32" where
  "bsig1 x = rotr 6 x XOR rotr 11 x XOR rotr 25 x"

definition ssig0 :: "w32 \<Rightarrow> w32" where
  "ssig0 x = rotr 7 x XOR rotr 18 x XOR drop_bit 3 x"

definition ssig1 :: "w32 \<Rightarrow> w32" where
  "ssig1 x = rotr 17 x XOR rotr 19 x XOR drop_bit 10 x"

text \<open>
  The round constants (the first 32 bits of the fractional parts of the cube roots of
  the first 64 primes) and the initial hash value (of the square roots of the first 8).
\<close>

definition K256 :: "w32 list" where
  "K256 =
    [1116352408, 1899447441, 3049323471, 3921009573, 961987163, 1508970993,
     2453635748, 2870763221, 3624381080, 310598401, 607225278, 1426881987,
     1925078388, 2162078206, 2614888103, 3248222580, 3835390401, 4022224774,
     264347078, 604807628, 770255983, 1249150122, 1555081692, 1996064986,
     2554220882, 2821834349, 2952996808, 3210313671, 3336571891, 3584528711,
     113926993, 338241895, 666307205, 773529912, 1294757372, 1396182291,
     1695183700, 1986661051, 2177026350, 2456956037, 2730485921, 2820302411,
     3259730800, 3345764771, 3516065817, 3600352804, 4094571909, 275423344,
     430227734, 506948616, 659060556, 883997877, 958139571, 1322822218,
     1537002063, 1747873779, 1955562222, 2024104815, 2227730452, 2361852424,
     2428436474, 2756734187, 3204031479, 3329325298]"

definition H256 :: "w32 list" where
  "H256 =
    [1779033703, 3144134277, 1013904242, 2773480762, 1359893119, 2600822924, 528734635, 1541459225]"

text \<open>The message schedule, newest word first: \<open>ws ! 1\<close> is \<open>W\<^bsub>t-2\<^esub>\<close>, \<open>ws ! 15\<close> is \<open>W\<^bsub>t-16\<^esub>\<close>.\<close>

fun expand :: "nat \<Rightarrow> w32 list \<Rightarrow> w32 list" where
  "expand 0 ws = ws"
| "expand (Suc n) ws =
     expand n ((ssig1 (ws ! 1) + ws ! 6 + ssig0 (ws ! 14) + ws ! 15) # ws)"

fun round256 :: "w32 list \<Rightarrow> w32 \<times> w32 \<Rightarrow> w32 list" where
  "round256 [a, b, c, d, e, f, g, h] (k, w) =
     (let t1 = h + bsig1 e + Ch e f g + k + w;
          t2 = bsig0 a + Maj a b c
      in [t1 + t2, a, b, c, d + t1, e, f, g])"
| "round256 st _ = st"

definition compress :: "w32 list \<Rightarrow> w32 list \<Rightarrow> w32 list" where
  "compress hs blk =
     map2 (+) hs (foldl round256 hs (zip K256 (rev (expand 48 (rev blk)))))"

fun be32 :: "8 word list \<Rightarrow> w32 list" where
  "be32 (a # b # c # d # bs) =
     (push_bit 24 (ucast a) OR push_bit 16 (ucast b) OR push_bit 8 (ucast c) OR ucast d) # be32 bs"
| "be32 _ = []"

fun chunks :: "w32 list \<Rightarrow> w32 list list" where
  "chunks [] = []"
| "chunks ws = take 16 ws # chunks (drop 16 ws)"

text \<open>Padding: the byte \<open>0x80\<close>, zero bytes up to 56 modulo 64, the bit length in 64 bits.\<close>

definition pad :: "8 word list \<Rightarrow> 8 word list" where
  "pad m =
     (let l = length m
      in m @ [0x80] @ replicate ((119 - l mod 64) mod 64) 0 @
         map (\<lambda>i. ucast (drop_bit (8 * i) (word_of_nat (8 * l) :: 64 word))) (rev [0..<8]))"

definition sha256 :: "8 word list \<Rightarrow> w32 list" where
  "sha256 m = foldl compress H256 (chunks (be32 (pad m)))"

definition hexdigit :: "nat \<Rightarrow> char" where
  "hexdigit n = ''0123456789abcdef'' ! n"

definition hex32 :: "w32 \<Rightarrow> string" where
  "hex32 w = map (\<lambda>i. hexdigit (unat (drop_bit (4 * i) w AND 15))) (rev [0..<8])"

definition sha256_hexdigest :: "string \<Rightarrow> string" where
  "sha256_hexdigest s = concat (map hex32 (sha256 (map of_char s)))"

subsection \<open>\<^verbatim>\<open>str\<close> of an integer\<close>

text \<open>
  The f-string \<^verbatim>\<open>f"{last_proof}{proof}"\<close> formats each integer as \<^verbatim>\<open>str\<close> does:
  decimal digits, most significant first, with a leading minus sign below zero.
\<close>

definition digit_char :: "nat \<Rightarrow> char" where
  "digit_char d = ''0123456789'' ! d"

function str_nat :: "nat \<Rightarrow> string" where
  "str_nat n = (if n < 10 then [digit_char n] else str_nat (n div 10) @ [digit_char (n mod 10)])"
  by pat_completeness auto
termination
  by (relation "measure id") auto

declare str_nat.simps [simp del]

definition str_int :: "int \<Rightarrow> string" where
  "str_int i = (if i < 0 then CHR ''-'' # str_nat (nat (- i)) else str_nat (nat i))"

section \<open>The proof of work\<close>

text \<open>
  \<^verbatim>\<open>
  @staticmethod
  def valid_proof(last_proof, proof):
      guess = f"{last_proof}{proof}".encode()
      guess_hash = hashlib.sha256(guess).hexdigest()
      return guess_hash[:4] == "0000"
  \<close>
\<close>

definition valid_proof :: "int \<Rightarrow> int \<Rightarrow> bool" where
  "valid_proof last_proof proof =
     (let guess = str_int last_proof @ str_int proof;
          guess_hash = sha256_hexdigest guess
      in take 4 guess_hash = ''0000'')"

text \<open>
  \<^verbatim>\<open>
  def proof_of_work(self, last_proof):
      proof = 0
      while self.valid_proof(last_proof, proof) is False:
          proof += 1
      return proof
  \<close>
  The search has no upper bound: a run that never finds a proof is the value \<open>None\<close>.
\<close>

partial_function (option) proof_of_work_loop :: "int \<Rightarrow> int \<Rightarrow> int option" where
  "proof_of_work_loop last_proof proof =
     (if valid_proof last_proof proof = False
      then proof_of_work_loop last_proof (proof + 1)
      else Some proof)"

definition proof_of_work :: "int \<Rightarrow> int option" where
  "proof_of_work last_proof = proof_of_work_loop last_proof 0"

section \<open>Python values, blocks and the ledger\<close>

datatype error = IndexError | NameError string | ConnectionError

text \<open>
  The values a \<^verbatim>\<open>previous_hash\<close> takes in the source: \<^verbatim>\<open>None\<close> (the default of
  \<^verbatim>\<open>new_block\<close>), an integer (\<^verbatim>\<open>1\<close> for the genesis block) or a string (a digest).
  \<open>truthy\<close> is Python's truth value, as \<^verbatim>\<open>or\<close> tests it.
\<close>

datatype pyval = PyNone | PyInt int | PyStr string

fun truthy :: "pyval \<Rightarrow> bool" where
  "truthy PyNone = False"
| "truthy (PyInt n) = (n \<noteq> 0)"
| "truthy (PyStr s) = (s \<noteq> [])"

record transaction =
  sender :: string
  recipient :: string
  amount :: int

text \<open>The block dictionary; the key \<^verbatim>\<open>'proof'\<close> is the field \<open>proof_no\<close>.\<close>

record block =
  index :: int
  timestamp :: real
  transactions :: "transaction list"
  proof_no :: int
  previous_hash :: pyval

text \<open>The attributes of a \<^verbatim>\<open>Blockchain\<close> object; \<^verbatim>\<open>self.chain\<close> is the field \<open>chain_list\<close>.\<close>

record blockchain =
  chain_list :: "block list"
  current_transactions :: "transaction list"
  nodes :: "string set"

text \<open>
  \<^verbatim>\<open>
  @staticmethod
  def hash(block):
      block_string = json.dumps(block, sort_keys=True).encode()
      return hashlib.sha256(block_string).hexdigest()
  \<close>
  The serialisation \<^verbatim>\<open>json.dumps(block, sort_keys=True).encode()\<close> is the parameter
  \<open>dumps\<close>: it prints the floating-point timestamp, which is outside this model.
\<close>

definition hash :: "(block \<Rightarrow> string) \<Rightarrow> block \<Rightarrow> string" where
  "hash dumps block = (let block_string = dumps block in sha256_hexdigest block_string)"

text \<open>
  \<^verbatim>\<open>
  def new_block(self, proof, previous_hash=None):
      block = {
          'index': len(self.chain) + 1,
          'timestamp': time(),
          'transactions': self.current_transactions,
          'proof': proof,
          'previous_hash': previous_hash or self.hash(self.chain[-1])
      }
      self.current_transactions = []
      self.chain.append(block)
      return block
  \<close>
  \<open>now\<close> is the value \<^verbatim>\<open>time()\<close> returns and \<open>prev_hash\<close> the argument
  \<^verbatim>\<open>previous_hash\<close>. \<^verbatim>\<open>self.chain[-1]\<close> is evaluated only when
  \<^verbatim>\<open>previous_hash\<close> is falsy and raises IndexError on the empty chain, before anything
  is assigned.
\<close>

definition new_block ::
  "(block \<Rightarrow> string) \<Rightarrow> real \<Rightarrow> int \<Rightarrow> pyval \<Rightarrow> blockchain \<Rightarrow> error + block \<times> blockchain" where
  "new_block dumps now proof prev_hash s =
     (case (if truthy prev_hash then Inr prev_hash
            else if chain_list s = [] then Inl IndexError
            else Inr (PyStr (hash dumps (last (chain_list s))))) of
        Inl e \<Rightarrow> Inl e
      | Inr ph \<Rightarrow>
          (let block = \<lparr>index = int (length (chain_list s)) + 1,
                        timestamp = now,
                        transactions = current_transactions s,
                        proof_no = proof,
                        previous_hash = ph\<rparr>
           in Inr (block, s\<lparr>current_transactions := [], chain_list := chain_list s @ [block]\<rparr>)))"

text \<open>
  \<^verbatim>\<open>
  def new_transaction(self, sender, recipient, amount):
      self.current_transactions.append({...})
      return self.last_block['index'] + 1
  \<close>
  The append comes first: when \<^verbatim>\<open>self.chain[-1]\<close> raises, the pool has already grown.
  The result is the returned value (or the error) and the state after the call.
\<close>

definition last_block :: "blockchain \<Rightarrow> error + block" where
  "last_block s = (if chain_list s = [] then Inl IndexError else Inr (last (chain_list s)))"

definition new_transaction ::
  "blockchain \<Rightarrow> string \<Rightarrow> string \<Rightarrow> int \<Rightarrow> (error + int) \<times> blockchain" where
  "new_transaction s sndr rcpt amt =
     (let s' = s\<lparr>current_transactions :=
                   current_transactions s @ [\<lparr>sender = sndr, recipient = rcpt, amount = amt\<rparr>]\<rparr>
      in (case last_block s' of Inl e \<Rightarrow> Inl e | Inr b \<Rightarrow> Inr (index b + 1), s'))"

text \<open>
  \<^verbatim>\<open>
  def __init__(self):
      self.chain = []
      self.current_transactions = []
      self.new_block(previous_hash=1, proof=100)
      self.nodes = set()
  \<close>
\<close>

definition Blockchain_init :: "(block \<Rightarrow> string) \<Rightarrow> real \<Rightarrow> error + blockchain" where
  "Blockchain_init dumps now =
     (case new_block dumps now 100 (PyInt 1)
             \<lparr>chain_list = [], current_transactions = [], nodes = {}\<rparr> of
        Inl e \<Rightarrow> Inl e
      | Inr (b, s) \<Rightarrow> Inr (s\<lparr>nodes := {}\<rparr>))"

text \<open>
  Sequences of ledger operations. A call of \<^verbatim>\<open>new_block\<close> that raises leaves the
  object as it was; a call of \<^verbatim>\<open>new_transaction\<close> leaves the state it reached.
\<close>

datatype operation = NewTransaction string string int | NewBlock real int pyval

fun apply_operation :: "(block \<Rightarrow> string) \<Rightarrow> blockchain \<Rightarrow> operation \<Rightarrow> blockchain" where
  "apply_operation dumps s (NewTransaction sndr rcpt amt) = snd (new_transaction s sndr rcpt amt)"
| "apply_operation dumps s (NewBlock now proof ph) =
     (case new_block dumps now proof ph s of Inl e \<Rightarrow> s | Inr (b, s') \<Rightarrow> s')"

definition run :: "(block \<Rightarrow> string) \<Rightarrow> blockchain \<Rightarrow> operation list \<Rightarrow> blockchain" where
  "run dumps s ops = foldl (apply_operation dumps) s ops"

text \<open>Submitting a list of transactions one after the other.\<close>

definition submit_all :: "blockchain \<Rightarrow> transaction list \<Rightarrow> blockchain" where
  "submit_all s txs =
     foldl (\<lambda>s t. snd (new_transaction s (sender t) (recipient t) (amount t))) s txs"


section \<open>Chain validation\<close>

text \<open>
  \<^verbatim>\<open>
  def valid_chain(self, chain):
      last_block = chain[0]
      while current_index := 1 < len(chain):
          block = chain[current_index]
          if block['previous_hash'] != self_hash(last_block):
              return False

          if not self.valid_proof(last_block['proof'], block['proof']):
              return False

          last_block = block
          current_index += 1
      return True
  \<close>
  The assignment expression binds \<^verbatim>\<open>current_index\<close> to the value of the whole comparison
  \<^verbatim>\<open>1 < len(chain)\<close>, a boolean: as an index it is \<open>1\<close> (\<^verbatim>\<open>True\<close>) or \<open>0\<close>
  (\<^verbatim>\<open>False\<close>), and every test of the loop binds it again, so the increment at the
  end of the body is overwritten. The loop's state is the local \<^verbatim>\<open>last_block\<close>, written \<open>last_blk\<close>.

  \<^verbatim>\<open>self_hash\<close> is a name looked up in the global scope when the comparison is
  evaluated, after its left operand. The argument \<open>self_hash\<close> of the loop is the
  binding found there: \<open>None\<close> when there is none, and the call raises NameError.
  A loop that never leaves is the value \<open>None\<close> of the result.
\<close>

partial_function (option) valid_chain_loop ::
  "(block \<Rightarrow> string) option \<Rightarrow> block list \<Rightarrow> block \<Rightarrow> (error + bool) option" where
  "valid_chain_loop self_hash chain last_blk =
     (let current_index = (if 1 < length chain then 1 else 0 :: nat)
      in if current_index = 0 then Some (Inr True)
         else if length chain \<le> current_index then Some (Inl IndexError)
         else (let block = chain ! current_index
               in case self_hash of
                    None \<Rightarrow> Some (Inl (NameError ''self_hash''))
                  | Some h \<Rightarrow>
                      if previous_hash block \<noteq> PyStr (h last_blk) then Some (Inr False)
                      else if \<not> valid_proof (proof_no last_blk) (proof_no block)
                        then Some (Inr False)
                      else valid_chain_loop self_hash chain block))"

text \<open>
  The module binds the names it imports (\<^verbatim>\<open>hashlib\<close>, \<^verbatim>\<open>json\<close>, \<^verbatim>\<open>dedent\<close>,
  \<^verbatim>\<open>time\<close>, \<^verbatim>\<open>uuid4\<close>, \<^verbatim>\<open>urlparse\<close>, \<^verbatim>\<open>requests\<close>, \<^verbatim>\<open>Flask\<close>, \<^verbatim>\<open>jsonify\<close>,
  \<^verbatim>\<open>request\<close>) and its two classes; the digest is the attribute \<^verbatim>\<open>Blockchain.hash\<close>.
  No global and no builtin is called \<^verbatim>\<open>self_hash\<close>.
\<close>

definition module_self_hash :: "(block \<Rightarrow> string) option" where
  "module_self_hash = None"

definition valid_chain :: "block list \<Rightarrow> (error + bool) option" where
  "valid_chain chain =
     (if chain = [] then Some (Inl IndexError)
      else valid_chain_loop module_self_hash chain (chain ! 0))"

section \<open>Consensus\<close>

text \<open>
  \<^verbatim>\<open>
  def resolve_conflicts(self):
      neighbours = self.nodes
      new_chain = None
      max_length = len(self.chain)

      for node in neighbours:
          response = requests.get(f'http://{node}/chain')
          if response.status_code == 200:
              length = response.json()['length']
              chain = response.json()['chain']

              if length > max_length and self.valid_chain(chain):
                  max_length = length
                  new_chain = chain

      if new_chain:
          self.chain = new_chain
          return True
      return False
  \<close>
  The input is what \<^verbatim>\<open>requests.get\<close> does for each node, in the order the loop visits
  the set: it raises (no connection) or returns a response with a status code and a
  JSON body holding \<^verbatim>\<open>length\<close> and \<^verbatim>\<open>chain\<close>. Nothing in the source catches an
  exception, so one raised in the loop leaves the method at once.
\<close>

datatype response =
  ConnectionFailure
| Response (status_code: int) (json_length: int) (json_chain: "block list")

fun resolve_loop ::
  "response list \<Rightarrow> block list option \<Rightarrow> int \<Rightarrow> (error + block list option) option" where
  "resolve_loop [] new_chain max_length = Some (Inr new_chain)"
| "resolve_loop (ConnectionFailure # rs) new_chain max_length = Some (Inl ConnectionError)"
| "resolve_loop (Response status len chain # rs) new_chain max_length =
     (if status = 200 then
        (if len > max_length then
           (case valid_chain chain of
              None \<Rightarrow> None
            | Some (Inl e) \<Rightarrow> Some (Inl e)
            | Some (Inr ok) \<Rightarrow>
                if ok then resolve_loop rs (Some chain) len
                else resolve_loop rs new_chain max_length)
         else resolve_loop rs new_chain max_length)
      else resolve_loop rs new_chain max_length)"

definition resolve_conflicts ::
  "response list \<Rightarrow> blockchain \<Rightarrow> (error + bool \<times> blockchain) option" where
  "resolve_conflicts responses s =
     (case resolve_loop responses None (int (length (chain_list s))) of
        None \<Rightarrow> None
      | Some (Inl e) \<Rightarrow> Some (Inl e)
      | Some (Inr new_chain) \<Rightarrow>
          (if new_chain \<noteq> None \<and> new_chain \<noteq> Some []
           then Some (Inr (True, s\<lparr>chain_list := the new_chain\<rparr>))
           else Some (Inr (False, s))))"

text \<open>
  The value of \<^verbatim>\<open>self.chain\<close> when the call has ended, by a return or by an exception.
  The only assignment to \<^verbatim>\<open>self.chain\<close> is the one before \<^verbatim>\<open>return True\<close>, so a call
  that raises leaves the chain as it was.
\<close>

definition chain_after_resolve :: "response list \<Rightarrow> blockchain \<Rightarrow> block list option" where
  "chain_after_resolve responses s =
     (case resolve_conflicts responses s of
        None \<Rightarrow> None
      | Some (Inl e) \<Rightarrow> Some (chain_list s)
      | Some (Inr (replaced, s')) \<Rightarrow> Some (chain_list s'))"


section \<open>The index invariant\<close>

text \<open>A chain is indexed when it is non-empty and each block's index is its position plus one.\<close>

definition indexed :: "block list \<Rightarrow> bool" where
  "indexed c \<longleftrightarrow> c \<noteq> [] \<and> (\<forall>i<length c. index (c ! i) = int i + 1)"


section \<open>Example data\<close>

text \<open>
  A chain of five blocks as a node produces it: the genesis block, then four blocks
  with no transactions, each holding the digest \<^verbatim>\<open>Blockchain.hash\<close> gives for its
  predecessor and the proof \<^verbatim>\<open>proof_of_work\<close> finds for its predecessor's proof.
\<close>

definition example_chain :: "block list" where
  "example_chain =
    [\<lparr>index = 1, timestamp = 1700000000, transactions = [], proof_no = 100,
      previous_hash = PyInt 1\<rparr>,
     \<lparr>index = 2, timestamp = 1700000060, transactions = [], proof_no = 35293,
      previous_hash = PyStr ''e9e15af60d7465a1d85491783968224a0d97754ffb0df70b8237aec809d9076d''\<rparr>,
     \<lparr>index = 3, timestamp = 1700000120, transactions = [], proof_no = 35089,
      previous_hash = PyStr ''65026244948fcfedbfd6b052bc4e0f412db4fb6ad5be04ea3fd93ec57d3d5f3d''\<rparr>,
     \<lparr>index = 4, timestamp = 1700000180, transactions = [], proof_no = 119678,
      previous_hash = PyStr ''f147712f6e98b2576b24610b41e600c91c321ea81220fdfe9fd1a58ffdc78297''\<rparr>,
     \<lparr>index = 5, timestamp = 1700000240, transactions = [], proof_no = 146502,
      previous_hash = PyStr ''1b8fa313410f1e4c303a0e41dbffb82cc03a28d934b88df1c1c5bd328d126528''\<rparr>]"

text \<open>A node whose chain is the first \<open>n\<close> blocks of the example, with an empty pool.\<close>

definition example_node :: "nat \<Rightarrow> blockchain" where
  "example_node n =
     \<lparr>chain_list = take n example_chain, current_transactions = [],
      nodes = {''192.168.0.5:5000'', ''192.168.0.6:5000''}\<rparr>"


section \<open>Facts about the digest\<close>

lemma round256_length: "length st = 8 \<Longrightarrow> length (round256 st kw) = 8"
proof -
  assume "length st = 8"
  then obtain a b c d e f g h where "st = [a, b, c, d, e, f, g, h]"
    by (auto simp: length_Suc_conv eval_nat_numeral)
  then show ?thesis
    by (cases kw) (simp add: Let_def)
qed

lemma foldl_round256_length: "length st = 8 \<Longrightarrow> length (foldl round256 st kws) = 8"
  by (induction kws arbitrary: st) (simp_all add: round256_length)

lemma compress_length: "length hs = 8 \<Longrightarrow> length (compress hs blk) = 8"
  by (simp add: compress_def foldl_round256_length)

lemma foldl_compress_length: "length hs = 8 \<Longrightarrow> length (foldl compress hs blks) = 8"
  by (induction blks arbitrary: hs) (simp_all add: compress_length)

lemma sha256_length: "length (sha256 m) = 8"
  by (simp add: sha256_def foldl_compress_length H256_def)

lemma hex32_length: "length (hex32 w) = 8"
  by (simp add: hex32_def)

lemma concat_hex32_length: "length (concat (map hex32 ws)) = 8 * length ws"
  by (induction ws) (simp_all add: hex32_length)

lemma sha256_hexdigest_length: "length (sha256_hexdigest s) = 64"
  by (simp add: sha256_hexdigest_def concat_hex32_length sha256_length)

section \<open>Proof validity\<close>

lemma take4_zeros:
  assumes "4 \<le> length d"
  shows "take 4 d = ''0000'' \<longleftrightarrow> (\<forall>i<4. d ! i = CHR ''0'')"
proof -
  from assms obtain a b c e r where d: "d = a # b # c # e # r"
    by (cases d; cases "tl d"; cases "tl (tl d)"; cases "tl (tl (tl d))") auto
  have "(\<forall>i<4. d ! i = CHR ''0'') \<longleftrightarrow>
        d ! 0 = CHR ''0'' \<and> d ! 1 = CHR ''0'' \<and> d ! 2 = CHR ''0'' \<and> d ! 3 = CHR ''0''"
  proof -
    have "i < 4 \<longleftrightarrow> i = 0 \<or> i = 1 \<or> i = 2 \<or> i = 3" for i :: nat
      by arith
    then show ?thesis by auto
  qed
  then show ?thesis
    by (simp add: d)
qed

text \<open>
  C5. \<open>valid_proof last_proof proof\<close> is true exactly when the SHA-256 hex digest of
  the decimal form of \<open>last_proof\<close> followed by the decimal form of \<open>proof\<close> starts
  with the required number of zero characters, 4 in the source: each of the first four
  of its 64 hex characters is \<open>0\<close>.
\<close>

theorem valid_proof_four_leading_zeros:
  "length (sha256_hexdigest (str_int last_proof @ str_int proof)) = 64 \<and>
   (valid_proof last_proof proof \<longleftrightarrow>
      (\<forall>i<4. sha256_hexdigest (str_int last_proof @ str_int proof) ! i = CHR ''0''))"
proof -
  let ?d = "sha256_hexdigest (str_int last_proof @ str_int proof)"
  have len: "length ?d = 64"
    by (rule sha256_hexdigest_length)
  then have "4 \<le> length ?d"
    by simp
  then have "take 4 ?d = ''0000'' \<longleftrightarrow> (\<forall>i<4. ?d ! i = CHR ''0'')"
    by (rule take4_zeros)
  moreover have "valid_proof last_proof proof \<longleftrightarrow> take 4 ?d = ''0000''"
    unfolding valid_proof_def Let_def ..
  ultimately show ?thesis
    using len by blast
qed

subsection \<open>Digests of some guesses\<close>

text \<open>
  The digests of the guesses used below, computed by the functions above: the guess of
  the second block of the example chain, the first three guesses of the search from
  30916, and the first guess of the search from 331792.
\<close>

lemma digest_10035293:
  "sha256_hexdigest ''10035293'' =
     ''0000c415de5ceea33c02daa85a1c218ecca1b1c9e9864ed34d183597844de8e2''"
  by code_simp

lemma digest_309160:
  "sha256_hexdigest ''309160'' =
     ''199fc9086eaa5c24fedcf7449fa45ee3d03d89f3786b974ffc2f4a785e42057e''"
  by code_simp

lemma digest_309161:
  "sha256_hexdigest ''309161'' =
     ''3c77facab3de12355c29934ee9f4d3c42516e7502794ba3e5362cd4838713877''"
  by code_simp

lemma digest_309162:
  "sha256_hexdigest ''309162'' =
     ''0000b9f1bc934ffe9e81e4c8fcd50baa93356eb244b654c97610822a9ae5faeb''"
  by code_simp

lemma digest_3317920:
  "sha256_hexdigest ''3317920'' =
     ''00000b49f04d0a31bbacc7ae784ee6598f4d803a167c25e0ed179f0b456ae85d''"
  by code_simp


lemma guess_100_35293: "str_int 100 @ str_int 35293 = ''10035293''"
  by (simp add: str_int_def str_nat.simps digit_char_def)

lemma guess_30916_0: "str_int 30916 @ str_int 0 = ''309160''"
  by (simp add: str_int_def str_nat.simps digit_char_def)

lemma guess_30916_1: "str_int 30916 @ str_int 1 = ''309161''"
  by (simp add: str_int_def str_nat.simps digit_char_def)

lemma guess_30916_2: "str_int 30916 @ str_int 2 = ''309162''"
  by (simp add: str_int_def str_nat.simps digit_char_def)

lemma guess_331792_0: "str_int 331792 @ str_int 0 = ''3317920''"
  by (simp add: str_int_def str_nat.simps digit_char_def)

lemma valid_proof_30916:
  "\<not> valid_proof 30916 0" "\<not> valid_proof 30916 1" "valid_proof 30916 2"
  by (simp_all add: valid_proof_def guess_30916_0 guess_30916_1 guess_30916_2
        digest_309160 digest_309161 digest_309162)

text \<open>
  The proof 35293 is valid for 100, the proof of the genesis block; 0 is not valid for
  30916, whose digest starts with \<open>199f\<close>. The proof 0 is valid for 331792: the digest
  starts with five zero characters, and only the first four are compared.
\<close>

theorem valid_proof_four_leading_zeros_witness:
  "valid_proof 100 35293 \<and> \<not> valid_proof 30916 0 \<and>
   valid_proof 331792 0 \<and> take 5 (sha256_hexdigest ''3317920'') = ''00000''"
proof -
  note t = valid_proof_four_leading_zeros
  have four: "i < 4 \<longleftrightarrow> i = 0 \<or> i = 1 \<or> i = 2 \<or> i = 3" for i :: nat
    by arith
  have "\<forall>i<4. sha256_hexdigest (str_int 100 @ str_int 35293) ! i = CHR ''0''"
    unfolding guess_100_35293 digest_10035293 by (auto simp: four)
  with t [of 100 35293] have a: "valid_proof 100 35293"
    by blast
  have "sha256_hexdigest (str_int 30916 @ str_int 0) ! 0 \<noteq> CHR ''0''"
    unfolding guess_30916_0 digest_309160 by simp
  then have "\<not> (\<forall>i<4. sha256_hexdigest (str_int 30916 @ str_int 0) ! i = CHR ''0'')"
    by (auto intro: exI [of _ 0])
  with t [of 30916 0] have b: "\<not> valid_proof 30916 0"
    by blast
  have "\<forall>i<4. sha256_hexdigest (str_int 331792 @ str_int 0) ! i = CHR ''0''"
    unfolding guess_331792_0 digest_3317920 by (auto simp: four)
  with t [of 331792 0] have c: "valid_proof 331792 0"
    by blast
  have d: "take 5 (sha256_hexdigest ''3317920'') = ''00000''"
    unfolding digest_3317920 by simp
  from a b c d show ?thesis
    by (intro conjI)
qed

section \<open>The search for a proof\<close>

lemma proof_of_work_loop_finds:
  "valid_proof lp (p + int k) \<Longrightarrow> (\<forall>j<k. \<not> valid_proof lp (p + int j)) \<Longrightarrow>
   proof_of_work_loop lp p = Some (p + int k)"
proof (induction k arbitrary: p)
  case 0
  then show ?case
    by (subst proof_of_work_loop.simps) simp
next
  case (Suc k)
  from Suc.prems(2) have "\<not> valid_proof lp (p + int 0)"
    by blast
  then have first: "\<not> valid_proof lp p"
    by simp
  have later: "\<forall>j<k. \<not> valid_proof lp (p + 1 + int j)"
  proof (intro allI impI)
    fix j assume "j < k"
    then have "Suc j < Suc k" by simp
    with Suc.prems(2) have nv: "\<not> valid_proof lp (p + int (Suc j))"
      by blast
    have eq: "p + int (Suc j) = p + 1 + int j" by simp
    from nv show "\<not> valid_proof lp (p + 1 + int j)"
      unfolding eq .
  qed
  have eq: "p + int (Suc k) = p + 1 + int k" by simp
  from Suc.prems(1) have "valid_proof lp (p + 1 + int k)"
    unfolding eq .
  then have "proof_of_work_loop lp (p + 1) = Some (p + 1 + int k)"
    using later by (rule Suc.IH)
  then have "proof_of_work_loop lp (p + 1) = Some (p + int (Suc k))"
    unfolding eq .
  with first show ?case
    by (subst proof_of_work_loop.simps) simp
qed

text \<open>
  C4. When some non-negative proof is valid for \<open>last_proof\<close>, the search returns,
  and what it returns is the smallest non-negative integer that \<open>valid_proof\<close> accepts;
  in particular the returned proof is valid.
\<close>

theorem proof_of_work_smallest:
  assumes "\<exists>p\<ge>0. valid_proof last_proof p"
  shows "\<exists>p. proof_of_work last_proof = Some p \<and> 0 \<le> p \<and> valid_proof last_proof p \<and>
             (\<forall>q. 0 \<le> q \<and> q < p \<longrightarrow> \<not> valid_proof last_proof q)"
proof -
  from assms obtain p0 where p0: "0 \<le> p0" "valid_proof last_proof p0"
    by blast
  define k where "k = (LEAST n. valid_proof last_proof (int n))"
  have ex: "valid_proof last_proof (int (nat p0))"
    using p0 by simp
  have valid: "valid_proof last_proof (int k)"
    unfolding k_def using ex by (rule LeastI)
  have least: "\<not> valid_proof last_proof (int j)" if "j < k" for j
    using that not_less_Least unfolding k_def by blast
  have "proof_of_work_loop last_proof (0 + int 0) = proof_of_work_loop last_proof 0"
    by simp
  have "valid_proof last_proof (0 + int k)"
    using valid by simp
  moreover have "\<forall>j<k. \<not> valid_proof last_proof (0 + int j)"
    using least by simp
  ultimately have "proof_of_work_loop last_proof 0 = Some (0 + int k)"
    by (rule proof_of_work_loop_finds)
  then have res: "proof_of_work last_proof = Some (int k)"
    by (simp add: proof_of_work_def)
  have min: "\<not> valid_proof last_proof q" if "0 \<le> q" "q < int k" for q
  proof -
    from that have "nat q < k" by linarith
    then have "\<not> valid_proof last_proof (int (nat q))" by (rule least)
    with that(1) show ?thesis by simp
  qed
  show ?thesis
  proof (intro exI conjI allI impI)
    show "proof_of_work last_proof = Some (int k)" by (rule res)
    show "0 \<le> int k" by simp
    show "valid_proof last_proof (int k)" by (rule valid)
    show "\<not> valid_proof last_proof q" if "0 \<le> q \<and> q < int k" for q
      using that min by blast
  qed
qed

text \<open>
  The search from 30916 returns 2: the guesses 0 and 1 are rejected and 2 is accepted.
\<close>

theorem proof_of_work_smallest_witness:
  "proof_of_work 30916 = Some 2 \<and> valid_proof 30916 2 \<and>
   \<not> valid_proof 30916 0 \<and> \<not> valid_proof 30916 1"
proof -
  have "\<exists>p\<ge>0. valid_proof 30916 p"
    using valid_proof_30916(3) by (intro exI [of _ 2]) simp
  with proof_of_work_smallest [of 30916]
  obtain p where p: "proof_of_work 30916 = Some p" "0 \<le> p" "valid_proof 30916 p"
      "\<forall>q. 0 \<le> q \<and> q < p \<longrightarrow> \<not> valid_proof 30916 q"
    by blast
  from p(4) valid_proof_30916(3) have "\<not> 2 < p"
    by auto
  moreover from p(3) valid_proof_30916(1) have "p \<noteq> 0"
    by auto
  moreover from p(3) valid_proof_30916(2) have "p \<noteq> 1"
    by auto
  ultimately have "p = 2"
    using p(2) by arith
  with p(1) valid_proof_30916 show ?thesis
    by simp
qed

section \<open>The ledger\<close>

text \<open>
  C6. A freshly constructed ledger holds exactly one block, the genesis block, with
  index 1, no transactions and proof 100 (its \<^verbatim>\<open>previous_hash\<close> is the integer 1), and
  its pool of pending transactions is empty.
\<close>

theorem Blockchain_init_genesis:
  "Blockchain_init dumps now =
     Inr \<lparr>chain_list = [\<lparr>index = 1, timestamp = now, transactions = [], proof_no = 100,
                           previous_hash = PyInt 1\<rparr>],
          current_transactions = [],
          nodes = {}\<rparr>"
  by (simp add: Blockchain_init_def new_block_def Let_def)

section \<open>What chain validation returns\<close>

text \<open>With no binding for \<^verbatim>\<open>self_hash\<close> the first pass through the body raises.\<close>

lemma valid_chain_loop_unbound:
  "valid_chain_loop None chain b =
     Some (if 1 < length chain then Inl (NameError ''self_hash'') else Inr True)"
  by (subst valid_chain_loop.simps) (simp add: Let_def)

lemma valid_chain_result:
  "valid_chain chain =
     Some (if chain = [] then Inl IndexError
           else if 1 < length chain then Inl (NameError ''self_hash'')
           else Inr True)"
  by (simp add: valid_chain_def module_self_hash_def valid_chain_loop_unbound)

text \<open>
  Were \<^verbatim>\<open>self_hash\<close> bound to a digest \<open>h\<close>, the loop would still not scan the chain:
  the second test binds \<^verbatim>\<open>current_index\<close> to \<^verbatim>\<open>True\<close> again, so the block at
  position 1 is compared with itself, and a chain whose first link is intact is
  rejected whatever its later blocks are.
\<close>

lemma valid_chain_loop_second_test:
  assumes "1 < length chain"
    and "previous_hash (chain ! 1) = PyStr (h b0)"
    and "valid_proof (proof_no b0) (proof_no (chain ! 1))"
    and "previous_hash (chain ! 1) \<noteq> PyStr (h (chain ! 1))"
  shows "valid_chain_loop (Some h) chain b0 = Some (Inr False)"
proof -
  have "valid_chain_loop (Some h) chain b0 = valid_chain_loop (Some h) chain (chain ! 1)"
    using assms(1-3) by (subst valid_chain_loop.simps) (simp add: Let_def)
  also have "\<dots> = Some (Inr False)"
    using assms(1,4) by (subst valid_chain_loop.simps) (simp add: Let_def)
  finally show ?thesis .
qed

text \<open>
  C10. \<open>valid_chain\<close> reads \<^verbatim>\<open>chain[0]\<close> first: on the empty chain the read is out of
  range and the call ends in IndexError instead of a boolean; on every non-empty chain
  the call ends and never in IndexError (the only other read, \<^verbatim>\<open>chain[current_index]\<close>,
  is made when the chain has a position 1).
\<close>

theorem valid_chain_nonempty:
  "valid_chain [] = Some (Inl IndexError) \<and>
   (chain \<noteq> [] \<longrightarrow> (\<exists>r. valid_chain chain = Some r \<and> r \<noteq> Inl IndexError))"
  by (simp add: valid_chain_result)

text \<open>The empty chain, the genesis block alone, and the five blocks of the example.\<close>

theorem valid_chain_nonempty_witness:
  "valid_chain [] = Some (Inl IndexError) \<and>
   valid_chain (take 1 example_chain) = Some (Inr True) \<and>
   (\<exists>r. valid_chain example_chain = Some r \<and> r \<noteq> Inl IndexError)"
  using valid_chain_nonempty [of example_chain] valid_chain_nonempty [of "take 1 example_chain"]
  by (simp add: valid_chain_result example_chain_def)

text \<open>
  C1. The claim has \<open>valid_chain\<close> return a boolean for every chain, true exactly when
  every adjacent pair is linked by digest and proof. On the first two blocks of the
  example, a pair that is so linked, the call ends in NameError: the comparison calls
  the unbound name \<^verbatim>\<open>self_hash\<close>.
\<close>

theorem valid_chain_two_blocks:
  "valid_chain (take 2 example_chain) = Some (Inl (NameError ''self_hash''))"
  by (simp add: valid_chain_result example_chain_def)

section \<open>What consensus resolution returns\<close>

lemma resolve_loop_skip:
  "status \<noteq> 200 \<Longrightarrow>
   resolve_loop (rs1 @ Response status len chain # rs2) nc ml = resolve_loop (rs1 @ rs2) nc ml"
proof (induction rs1 arbitrary: nc ml)
  case Nil
  then show ?case by simp
next
  case (Cons r rs1)
  show ?case
  proof (cases r)
    case ConnectionFailure
    then show ?thesis by simp
  next
    case (Response st l c)
    then show ?thesis
      using Cons.IH [OF Cons.prems] by (simp split: option.splits sum.splits)
  qed
qed

lemma resolve_loop_unreachable:
  "ConnectionFailure \<in> set rs \<Longrightarrow> resolve_loop rs nc ml \<noteq> Some (Inr x)"
proof (induction rs arbitrary: nc ml)
  case Nil
  then show ?case by simp
next
  case (Cons r rs)
  show ?case
  proof (cases r)
    case ConnectionFailure
    then show ?thesis by simp
  next
    case (Response st l c)
    with Cons.prems have "ConnectionFailure \<in> set rs" by simp
    then have "resolve_loop rs nc' ml' \<noteq> Some (Inr x)" for nc' ml'
      by (rule Cons.IH)
    then show ?thesis
      using Response by (simp split: option.splits sum.splits)
  qed
qed

lemma resolve_loop_ends: "resolve_loop rs nc ml \<noteq> None"
proof (induction rs arbitrary: nc ml)
  case Nil
  then show ?case by simp
next
  case (Cons r rs)
  show ?case
  proof (cases r)
    case ConnectionFailure
    then show ?thesis by simp
  next
    case (Response st l c)
    then show ?thesis
      using Cons.IH by (simp add: valid_chain_result)
  qed
qed

lemma resolve_loop_then_unreachable:
  "resolve_loop rs1 nc ml = Some (Inr x) \<Longrightarrow>
   resolve_loop (rs1 @ ConnectionFailure # rs2) nc ml = Some (Inl ConnectionError)"
proof (induction rs1 arbitrary: nc ml)
  case Nil
  then show ?case by simp
next
  case (Cons r rs1)
  show ?case
  proof (cases r)
    case ConnectionFailure
    with Cons.prems show ?thesis by simp
  next
    case (Response st l c)
    with Cons.prems Cons.IH show ?thesis
      by (auto split: if_splits option.splits sum.splits)
  qed
qed

text \<open>
  C3, as the code has it. A peer whose response has a status other than 200 is skipped:
  the resolution ends as it does without that peer, wherever the peer comes in the
  order. A peer that cannot be reached is not skipped. When the peers asked before it
  are processed without an exception, the resolution ends in the connection error that
  \<^verbatim>\<open>requests.get\<close> raises for that peer, and the local chain is as it was before the call.
  Whenever some peer cannot be reached, the resolution returns nothing (it ends in an
  exception, the connection error or one raised before it) and the local chain is as it
  was before the call.
\<close>

theorem resolve_conflicts_skips_failed_status:
  "(status \<noteq> 200 \<longrightarrow>
      resolve_conflicts (rs1 @ Response status len chain # rs2) s =
      resolve_conflicts (rs1 @ rs2) s) \<and>
   ((\<exists>r. resolve_conflicts rs1 s = Some (Inr r)) \<longrightarrow>
      resolve_conflicts (rs1 @ ConnectionFailure # rs2) s = Some (Inl ConnectionError) \<and>
      chain_after_resolve (rs1 @ ConnectionFailure # rs2) s = Some (chain_list s)) \<and>
   (ConnectionFailure \<in> set rs \<longrightarrow>
      (\<forall>r. resolve_conflicts rs s \<noteq> Some (Inr r)) \<and>
      chain_after_resolve rs s = Some (chain_list s))"
proof (intro conjI impI allI)
  assume "status \<noteq> 200"
  then show "resolve_conflicts (rs1 @ Response status len chain # rs2) s =
      resolve_conflicts (rs1 @ rs2) s"
    by (simp add: resolve_conflicts_def resolve_loop_skip)
next
  assume "\<exists>r. resolve_conflicts rs1 s = Some (Inr r)"
  then obtain x where "resolve_loop rs1 None (int (length (chain_list s))) = Some (Inr x)"
    by (auto simp: resolve_conflicts_def split: option.splits sum.splits)
  then have "resolve_loop (rs1 @ ConnectionFailure # rs2) None (int (length (chain_list s))) =
      Some (Inl ConnectionError)"
    by (rule resolve_loop_then_unreachable)
  then show e: "resolve_conflicts (rs1 @ ConnectionFailure # rs2) s = Some (Inl ConnectionError)"
    by (simp add: resolve_conflicts_def)
  show "chain_after_resolve (rs1 @ ConnectionFailure # rs2) s = Some (chain_list s)"
    by (simp add: chain_after_resolve_def e)
next
  fix r
  assume "ConnectionFailure \<in> set rs"
  then have "resolve_loop rs None (int (length (chain_list s))) \<noteq> Some (Inr x)" for x
    by (rule resolve_loop_unreachable)
  then show "resolve_conflicts rs s \<noteq> Some (Inr r)"
    by (auto simp: resolve_conflicts_def split: option.splits sum.splits if_splits)
next
  assume "ConnectionFailure \<in> set rs"
  then have no: "resolve_loop rs None (int (length (chain_list s))) \<noteq> Some (Inr x)" for x
    by (rule resolve_loop_unreachable)
  have "resolve_loop rs None (int (length (chain_list s))) \<noteq> None"
    by (rule resolve_loop_ends)
  with no show "chain_after_resolve rs s = Some (chain_list s)"
    by (auto simp: chain_after_resolve_def resolve_conflicts_def
             split: option.splits sum.splits)
qed

text \<open>
  C3 as stated fails: a node with three blocks, one peer that cannot be reached and one
  peer reporting the five blocks of the example. The resolution ends in the connection
  error of the first peer; nothing is adopted and nothing is returned.
\<close>

theorem resolve_conflicts_unreachable_peer:
  "resolve_conflicts [ConnectionFailure, Response 200 5 example_chain] (example_node 3) =
     Some (Inl ConnectionError)"
  by (simp add: resolve_conflicts_def)

text \<open>
  C2. The scenario of the specification: a node with three blocks and two peers
  reporting chains of length 2 and 5. The claim has the resolution adopt the chain of
  length 5 and return true; the call ends in the NameError of \<open>valid_chain\<close>.
\<close>

theorem resolve_conflicts_longer_chain:
  "resolve_conflicts [Response 200 2 (take 2 example_chain), Response 200 5 example_chain]
     (example_node 3) = Some (Inl (NameError ''self_hash''))"
  by (simp add: resolve_conflicts_def example_node_def valid_chain_result example_chain_def)

text \<open>
  A node holding the first block of the example. A peer answering 503 comes before a
  peer that reports the length 2 and a chain of one block, which differs from the local
  block in its timestamp: the first peer is skipped and the chain of the second is
  adopted. With a peer that cannot be reached after that second peer, the resolution
  ends in the connection error and the node still holds its own block. On a node with
  three blocks, an unreachable peer before or after a peer reporting the five blocks of
  the example: nothing is returned and the three blocks stay.
\<close>

theorem resolve_conflicts_skips_failed_status_witness:
  "resolve_conflicts
     [Response 503 0 [], Response 200 2 [(hd example_chain)\<lparr>timestamp := 1700000007\<rparr>]]
     (example_node 1) =
     Some (Inr (True, (example_node 1)\<lparr>chain_list := [(hd example_chain)\<lparr>timestamp := 1700000007\<rparr>]\<rparr>)) \<and>
   resolve_conflicts
     [Response 200 2 [(hd example_chain)\<lparr>timestamp := 1700000007\<rparr>], ConnectionFailure]
     (example_node 1) = Some (Inl ConnectionError) \<and>
   chain_after_resolve
     [Response 200 2 [(hd example_chain)\<lparr>timestamp := 1700000007\<rparr>], ConnectionFailure]
     (example_node 1) = Some (take 1 example_chain) \<and>
   (\<forall>r. resolve_conflicts [ConnectionFailure, Response 200 5 example_chain] (example_node 3)
         \<noteq> Some (Inr r)) \<and>
   chain_after_resolve [Response 200 5 example_chain, ConnectionFailure] (example_node 3) =
     Some (take 3 example_chain)"
proof -
  let ?g = "(hd example_chain)\<lparr>timestamp := 1700000007\<rparr>"
  have adopt: "resolve_conflicts [Response 200 2 [?g]] (example_node 1) =
      Some (Inr (True, (example_node 1)\<lparr>chain_list := [?g]\<rparr>))"
    by (simp add: resolve_conflicts_def example_node_def valid_chain_result example_chain_def)
  have c1: "chain_list (example_node 1) = take 1 example_chain"
    and c3: "chain_list (example_node 3) = take 3 example_chain"
    by (simp_all add: example_node_def)
  note t = resolve_conflicts_skips_failed_status
  from t [of 503 "[]" 0 "[]" "[Response 200 2 [?g]]" "example_node 1"] adopt
  have a: "resolve_conflicts [Response 503 0 [], Response 200 2 [?g]] (example_node 1) =
      Some (Inr (True, (example_node 1)\<lparr>chain_list := [?g]\<rparr>))"
    by simp
  have ex: "\<exists>r. resolve_conflicts [Response 200 2 [?g]] (example_node 1) = Some (Inr r)"
    using adopt by blast
  from t [of _ "[Response 200 2 [?g]]" _ _ "[]" "example_node 1"] ex
  have bc: "resolve_conflicts [Response 200 2 [?g], ConnectionFailure] (example_node 1) =
        Some (Inl ConnectionError) \<and>
      chain_after_resolve [Response 200 2 [?g], ConnectionFailure] (example_node 1) =
        Some (chain_list (example_node 1))"
    by auto
  then have b: "resolve_conflicts [Response 200 2 [?g], ConnectionFailure] (example_node 1) =
        Some (Inl ConnectionError)"
    by (rule conjunct1)
  from bc have c: "chain_after_resolve [Response 200 2 [?g], ConnectionFailure] (example_node 1) =
        Some (take 1 example_chain)"
    unfolding c1 by (rule conjunct2)
  from t [of _ _ _ _ _ "example_node 3" "[ConnectionFailure, Response 200 5 example_chain]"]
  have d: "\<forall>r. resolve_conflicts [ConnectionFailure, Response 200 5 example_chain] (example_node 3)
         \<noteq> Some (Inr r)"
    by simp
  from t [of _ _ _ _ _ "example_node 3" "[Response 200 5 example_chain, ConnectionFailure]"]
  have e: "chain_after_resolve [Response 200 5 example_chain, ConnectionFailure] (example_node 3) =
     Some (take 3 example_chain)"
    by (simp add: c3)
  from a b c d e show ?thesis
    by (intro conjI)
qed

section \<open>Sealing a block\<close>

lemma submit_all_pool:
  "submit_all s txs = s\<lparr>current_transactions := current_transactions s @ txs\<rparr>"
proof (induction txs arbitrary: s)
  case Nil
  then show ?case by (simp add: submit_all_def)
next
  case (Cons t txs)
  have "submit_all s (t # txs) =
        submit_all (snd (new_transaction s (sender t) (recipient t) (amount t))) txs"
    by (simp add: submit_all_def)
  also have "snd (new_transaction s (sender t) (recipient t) (amount t)) =
        s\<lparr>current_transactions := current_transactions s @ [t]\<rparr>"
    by (simp add: new_transaction_def Let_def)
  finally show ?case
    by (simp add: Cons.IH)
qed

text \<open>
  C7, as the code has it. For every ledger state with a non-empty chain and every list
  of submitted transactions, sealing a block after submitting them succeeds, empties the
  pool, appends the new block, and the new block holds the transactions that were
  pending before, followed by the submitted ones in submission order: exactly the
  submitted ones when the pool was empty before.
\<close>

theorem new_block_drains_pool:
  assumes "chain_list s \<noteq> []"
  shows "\<exists>b s'. new_block dumps now proof ph (submit_all s txs) = Inr (b, s') \<and>
           transactions b = current_transactions s @ txs \<and>
           current_transactions s' = [] \<and>
           chain_list s' = chain_list s @ [b]"
  using assms by (simp add: submit_all_pool new_block_def Let_def)

text \<open>Three transactions submitted to a node holding the genesis block and an empty pool.\<close>

theorem new_block_drains_pool_witness:
  "\<exists>b s'. new_block (\<lambda>b. ''{}'') 1700000060 35293 PyNone
            (submit_all (example_node 1)
               [\<lparr>sender = ''A'', recipient = ''B'', amount = 10\<rparr>,
                \<lparr>sender = ''B'', recipient = ''C'', amount = 4\<rparr>,
                \<lparr>sender = ''0'', recipient = ''A'', amount = 1\<rparr>]) = Inr (b, s') \<and>
          transactions b =
               [\<lparr>sender = ''A'', recipient = ''B'', amount = 10\<rparr>,
                \<lparr>sender = ''B'', recipient = ''C'', amount = 4\<rparr>,
                \<lparr>sender = ''0'', recipient = ''A'', amount = 1\<rparr>] \<and>
          current_transactions s' = [] \<and>
          length (chain_list s') = 2"
  using new_block_drains_pool [of "example_node 1" "\<lambda>b. ''{}''" 1700000060 35293 PyNone
               "[\<lparr>sender = ''A'', recipient = ''B'', amount = 10\<rparr>,
                \<lparr>sender = ''B'', recipient = ''C'', amount = 4\<rparr>,
                \<lparr>sender = ''0'', recipient = ''A'', amount = 1\<rparr>]"]
  by (auto simp: example_node_def example_chain_def)

text \<open>
  C7 as stated fails for a state whose pool is not empty: with one transaction pending,
  submitting one more and sealing puts two transactions into the new block, not
  exactly the one submitted.
\<close>

theorem new_block_keeps_earlier_pending:
  "map_sum id (transactions \<circ> fst)
     (new_block (\<lambda>b. ''{}'') 1700000060 35293 PyNone
        (submit_all
           ((example_node 1)\<lparr>current_transactions :=
               [\<lparr>sender = ''A'', recipient = ''B'', amount = 10\<rparr>]\<rparr>)
           [\<lparr>sender = ''B'', recipient = ''C'', amount = 4\<rparr>])) =
   Inr [\<lparr>sender = ''A'', recipient = ''B'', amount = 10\<rparr>,
        \<lparr>sender = ''B'', recipient = ''C'', amount = 4\<rparr>]"
  by (simp add: submit_all_pool new_block_def Let_def example_node_def example_chain_def)

section \<open>Block indices\<close>

lemma apply_operation_indexed:
  assumes "indexed (chain_list s)"
  shows "indexed (chain_list (apply_operation dumps s op))"
proof (cases op)
  case (NewTransaction a b c)
  then show ?thesis
    using assms by (simp add: new_transaction_def Let_def)
next
  case (NewBlock now p ph)
  show ?thesis
  proof (cases "new_block dumps now p ph s")
    case (Inl e)
    then show ?thesis using assms NewBlock by simp
  next
    case (Inr r)
    then obtain b s' where r: "r = (b, s')" by (cases r)
    from Inr r have c: "chain_list s' = chain_list s @ [b]"
      and i: "index b = int (length (chain_list s)) + 1"
      by (auto simp: new_block_def Let_def split: sum.splits if_splits)
    have "indexed (chain_list s @ [b])"
      using assms i by (auto simp: indexed_def nth_append less_Suc_eq)
    then show ?thesis
      using Inr r c NewBlock by simp
  qed
qed

lemma run_indexed:
  "indexed (chain_list s) \<Longrightarrow> indexed (chain_list (run dumps s ops))"
  unfolding run_def
  by (induction ops arbitrary: s) (simp_all add: apply_operation_indexed)

text \<open>
  C8. In every state reached from a freshly constructed ledger by a sequence of
  \<open>new_transaction\<close> and \<open>new_block\<close> calls, the chain is non-empty and the block at
  position \<open>i\<close> (from 0) has index \<open>i + 1\<close>.
\<close>

theorem reachable_chain_indexed:
  "\<exists>s0. Blockchain_init dumps now = Inr s0 \<and>
     chain_list (run dumps s0 ops) \<noteq> [] \<and>
     (\<forall>i<length (chain_list (run dumps s0 ops)).
         index (chain_list (run dumps s0 ops) ! i) = int i + 1)"
proof -
  let ?s0 = "\<lparr>chain_list = [\<lparr>index = 1, timestamp = now, transactions = [], proof_no = 100,
                           previous_hash = PyInt 1\<rparr>],
          current_transactions = [], nodes = {}\<rparr>"
  have init: "Blockchain_init dumps now = Inr ?s0"
    by (simp add: Blockchain_init_def new_block_def Let_def)
  have "indexed (chain_list ?s0)"
    by (simp add: indexed_def)
  then have "indexed (chain_list (run dumps ?s0 ops))"
    by (rule run_indexed)
  with init show ?thesis
    unfolding indexed_def by blast
qed

text \<open>A transaction and two sealed blocks after the genesis block: indices 1, 2, 3.\<close>

theorem reachable_chain_indexed_witness:
  "\<exists>s0. Blockchain_init (\<lambda>b. ''{}'') 1700000000 = Inr s0 \<and>
     map index (chain_list (run (\<lambda>b. ''{}'') s0
        [NewTransaction ''A'' ''B'' 10, NewBlock 1700000060 35293 PyNone,
         NewBlock 1700000120 35089 (PyStr ''abc'')])) = [1, 2, 3]"
  using reachable_chain_indexed [of "\<lambda>b. ''{}''" 1700000000
        "[NewTransaction ''A'' ''B'' 10, NewBlock 1700000060 35293 PyNone,
         NewBlock 1700000120 35089 (PyStr ''abc'')]"]
  by (simp add: Blockchain_init_def run_def new_block_def new_transaction_def Let_def)

section \<open>The previous hash of a new block\<close>

text \<open>
  C9. On a non-empty chain, \<open>new_block\<close> called with the integer 0 or the empty string
  as \<^verbatim>\<open>previous_hash\<close> does what it does with the argument left out: the new block's
  \<^verbatim>\<open>previous_hash\<close> is the digest of the last block. A truthy argument is stored as it is.
\<close>

theorem new_block_falsy_previous_hash:
  assumes "chain_list s \<noteq> []"
  shows "(ph = PyInt 0 \<or> ph = PyStr [] \<longrightarrow>
            new_block dumps now proof ph s = new_block dumps now proof PyNone s \<and>
            (\<exists>b s'. new_block dumps now proof ph s = Inr (b, s') \<and>
                     previous_hash b = PyStr (hash dumps (last (chain_list s))))) \<and>
         (truthy ph \<longrightarrow>
            (\<exists>b s'. new_block dumps now proof ph s = Inr (b, s') \<and> previous_hash b = ph))"
  using assms by (auto simp: new_block_def Let_def)

text \<open>The three cases on a node holding the genesis block.\<close>

theorem new_block_falsy_previous_hash_witness:
  "new_block (\<lambda>b. ''{}'') 1700000060 35293 (PyInt 0) (example_node 1) =
     new_block (\<lambda>b. ''{}'') 1700000060 35293 PyNone (example_node 1) \<and>
   (\<exists>b s'. new_block (\<lambda>b. ''{}'') 1700000060 35293 (PyStr []) (example_node 1) = Inr (b, s') \<and>
       previous_hash b = PyStr (hash (\<lambda>b. ''{}'') (last (take 1 example_chain)))) \<and>
   (\<exists>b s'. new_block (\<lambda>b. ''{}'') 1700000060 35293 (PyStr ''abc'') (example_node 1) = Inr (b, s') \<and>
       previous_hash b = PyStr ''abc'')"
proof -
  have ne: "chain_list (example_node 1) \<noteq> []"
    by (simp add: example_node_def example_chain_def)
  have l: "last (chain_list (example_node 1)) = last (take 1 example_chain)"
    by (simp add: example_node_def)
  note t = new_block_falsy_previous_hash [OF ne, of _ "\<lambda>b. ''{}''" 1700000060 35293]
  from t [of "PyInt 0"]
  have a: "new_block (\<lambda>b. ''{}'') 1700000060 35293 (PyInt 0) (example_node 1) =
     new_block (\<lambda>b. ''{}'') 1700000060 35293 PyNone (example_node 1)"
    by simp
  from t [of "PyStr []"]
  have b: "\<exists>b s'. new_block (\<lambda>b. ''{}'') 1700000060 35293 (PyStr []) (example_node 1) = Inr (b, s') \<and>
       previous_hash b = PyStr (hash (\<lambda>b. ''{}'') (last (take 1 example_chain)))"
    unfolding l by blast
  from t [of "PyStr ''abc''"]
  have c: "\<exists>b s'. new_block (\<lambda>b. ''{}'') 1700000060 35293 (PyStr ''abc'') (example_node 1) = Inr (b, s') \<and>
       previous_hash b = PyStr ''abc''"
    by simp
  from a b c show ?thesis
    by (intro conjI)
qed

end
